theory Spec2Isabelle
  imports Main "HOL-Library.AList" "HOL-Library.Sublist"
begin

section \<open>The filesystem seen by the download worker\<close>

text \<open>
  The worker of \<^verbatim>\<open>src/workers/download_worker.py\<close> works on directories: it extracts an
  archive into a temporary directory, searches that directory for a plugin root, and copies
  the root below the install path. A path is the list of its components from the filesystem
  root. A directory is the list of its entries in the order \<^verbatim>\<open>os.scandir\<close> reports them,
  which is the order \<^verbatim>\<open>os.walk\<close> follows; a file carries its content. The filesystem is
  POSIX-like: names are compared byte for byte, and the only kinds of entry are regular
  files and directories (what \<^verbatim>\<open>ZipFile.extractall\<close> creates).
  A name joined to a path (\<^verbatim>\<open>base / name\<close>) is one component: the names of repositories,
  plugins and patches hold no separator.
\<close>

type_synonym path = "string list"

datatype node = File string | Dir "(string \<times> node) list"

fun is_dir :: "node \<Rightarrow> bool" where
  "is_dir (Dir es) = True"
| "is_dir (File c) = False"

fun lookup :: "node \<Rightarrow> path \<Rightarrow> node option" where
  "lookup nd [] = Some nd"
| "lookup (File c) (n # p) = None"
| "lookup (Dir es) (n # p) = (case map_of es n of None \<Rightarrow> None | Some c \<Rightarrow> lookup c p)"

definition path_exists :: "node \<Rightarrow> path \<Rightarrow> bool" where
  \<comment> \<open>\<^verbatim>\<open>Path.exists()\<close>: true for a file and for a directory alike\<close>
  "path_exists fs p \<longleftrightarrow> lookup fs p \<noteq> None"

text \<open>
  \<open>set_at p v\<close> stores \<open>v\<close> as the entry at \<open>p\<close> (\<open>None\<close> removes the entry) when the
  parent of \<open>p\<close> is a directory, and changes nothing otherwise. A replaced entry keeps
  its place in the directory, a new one goes to the end.
\<close>

fun set_at :: "path \<Rightarrow> node option \<Rightarrow> node \<Rightarrow> node" where
  "set_at [] v nd = (case v of None \<Rightarrow> nd | Some nd' \<Rightarrow> nd')"
| "set_at (n # p) v (File c) = File c"
| "set_at [n] v (Dir es) =
     Dir (case v of None \<Rightarrow> AList.delete n es | Some c \<Rightarrow> AList.update n c es)"
| "set_at (n # p) v (Dir es) =
     (case map_of es n of
        None \<Rightarrow> Dir es
      | Some c \<Rightarrow> Dir (AList.update n (set_at p v c) es))"

section \<open>The plugin-root locator\<close>

text \<open>
  \<^verbatim>\<open>os.walk(base)\<close>, top-down: the triple (root, dirs, files) of a directory comes before
  the triples of its subdirectories, which are visited in the order of the directory's
  entries. \<open>files\<close> holds the names of the entries that are not directories. A \<open>base\<close>
  that is missing or is a file yields nothing (the error of \<^verbatim>\<open>scandir\<close> is ignored).
\<close>

definition dirnames :: "(string \<times> node) list \<Rightarrow> string list" where
  "dirnames es = map fst (filter (\<lambda>e. is_dir (snd e)) es)"

definition filenames :: "(string \<times> node) list \<Rightarrow> string list" where
  "filenames es = map fst (filter (\<lambda>e. \<not> is_dir (snd e)) es)"

fun walk :: "path \<Rightarrow> node \<Rightarrow> (path \<times> string list \<times> string list) list"
  and walk_entries :: "path \<Rightarrow> (string \<times> node) list \<Rightarrow> (path \<times> string list \<times> string list) list"
where
  "walk root (File c) = []"
| "walk root (Dir es) = (root, dirnames es, filenames es) # walk_entries root es"
| "walk_entries root [] = []"
| "walk_entries root (e # es) = walk (root @ [fst e]) (snd e) @ walk_entries root es"

definition os_walk :: "node \<Rightarrow> path \<Rightarrow> (path \<times> string list \<times> string list) list" where
  "os_walk fs base = (case lookup fs base of None \<Rightarrow> [] | Some nd \<Rightarrow> walk base nd)"

definition has_markers :: "path \<times> string list \<times> string list \<Rightarrow> bool" where
  \<comment> \<open>the test of the loop body: \<^verbatim>\<open>"main.lua" in files and "_meta.lua" in files\<close>\<close>
  "has_markers t \<longleftrightarrow> ''main.lua'' \<in> set (snd (snd t)) \<and> ''_meta.lua'' \<in> set (snd (snd t))"

definition find_plugin_root :: "node \<Rightarrow> path \<Rightarrow> path option" where
  "find_plugin_root fs base =
     (if path_exists fs (base @ [''main.lua'']) \<and> path_exists fs (base @ [''_meta.lua''])
      then Some base
      else (case List.find has_markers (os_walk fs base) of
              None \<Rightarrow> None
            | Some t \<Rightarrow> Some (fst t)))"

section \<open>The install name\<close>

definition install_name :: "string \<Rightarrow> string" where
  \<comment> \<open>\<^verbatim>\<open>if not plugin_name.endswith(".koplugin"): plugin_name += ".koplugin"\<close>\<close>
  "install_name plugin_name =
     (if suffix ''.koplugin'' plugin_name then plugin_name else plugin_name @ ''.koplugin'')"

section \<open>Errors and filesystem operations\<close>

text \<open>
  Every exception the worker can meet is a value of \<open>error\<close>; all of them are instances of
  Python's \<^verbatim>\<open>Exception\<close>. \<open>External\<close> carries the \<^verbatim>\<open>str()\<close> of an exception raised by a
  collaborator (the API client, \<^verbatim>\<open>requests\<close>, \<^verbatim>\<open>zipfile\<close>) or by the operating system for
  a reason the tree does not show (permissions, a full disk).
\<close>

datatype error =
    KeyError string
  | FileNotFoundError path
  | FileExistsError path
  | NotADirectoryError path
  | IsADirectoryError path
  | External string

definition render :: "path \<Rightarrow> string" where
  "render p = (if p = [] then ''/'' else concat (map (\<lambda>n. ''/'' @ n) p))"

definition quoted :: "string \<Rightarrow> string" where
  "quoted s = CHR 0x27 # s @ [CHR 0x27]"

fun str_error :: "error \<Rightarrow> string" where
  "str_error (KeyError k) = quoted k"
| "str_error (FileNotFoundError p) = ''[Errno 2] No such file or directory: '' @ quoted (render p)"
| "str_error (FileExistsError p) = ''[Errno 17] File exists: '' @ quoted (render p)"
| "str_error (NotADirectoryError p) = ''[Errno 20] Not a directory: '' @ quoted (render p)"
| "str_error (IsADirectoryError p) = ''[Errno 21] Is a directory: '' @ quoted (render p)"
| "str_error (External d) = d"

definition path_name :: "path \<Rightarrow> string" where
  \<comment> \<open>\<^verbatim>\<open>Path.name\<close>: the final component, empty for the root\<close>
  "path_name p = (if p = [] then [] else last p)"

definition os_mkdir :: "path \<Rightarrow> node \<Rightarrow> error + node" where
  "os_mkdir p fs =
     (if p = [] \<or> path_exists fs p then Inl (FileExistsError p)
      else (case lookup fs (butlast p) of
              None \<Rightarrow> Inl (FileNotFoundError p)
            | Some (File c) \<Rightarrow> Inl (NotADirectoryError p)
            | Some (Dir es) \<Rightarrow> Inr (set_at p (Some (Dir [])) fs)))"

definition mkdir_exist_ok :: "path \<Rightarrow> node \<Rightarrow> error + node" where
  \<comment> \<open>\<^verbatim>\<open>Path.mkdir(exist_ok=True)\<close>, with \<^verbatim>\<open>parents=False\<close>\<close>
  "mkdir_exist_ok p fs =
     (case lookup fs p of
        Some (Dir es) \<Rightarrow> Inr fs
      | Some (File c) \<Rightarrow> Inl (FileExistsError p)
      | None \<Rightarrow> os_mkdir p fs)"

function makedirs :: "path \<Rightarrow> node \<Rightarrow> error + node" where
  "makedirs p fs =
     (if p \<noteq> [] \<and> \<not> path_exists fs (butlast p)
      then (case makedirs (butlast p) fs of Inl e \<Rightarrow> Inl e | Inr fs' \<Rightarrow> os_mkdir p fs')
      else os_mkdir p fs)"
  by pat_completeness auto
termination
  by (relation "measure (\<lambda>(p, fs). length p)") auto

declare makedirs.simps [simp del]

definition write_file :: "path \<Rightarrow> string \<Rightarrow> node \<Rightarrow> error + node" where
  \<comment> \<open>\<^verbatim>\<open>open(p, "w")\<close> followed by \<^verbatim>\<open>f.write(c)\<close>: creates the file or replaces its content\<close>
  "write_file p c fs =
     (if p = [] then Inl (IsADirectoryError p)
      else (case lookup fs (butlast p) of
              None \<Rightarrow> Inl (FileNotFoundError p)
            | Some (File c') \<Rightarrow> Inl (NotADirectoryError p)
            | Some (Dir es) \<Rightarrow>
                (case lookup fs p of
                   Some (Dir es') \<Rightarrow> Inl (IsADirectoryError p)
                 | _ \<Rightarrow> Inr (set_at p (Some (File c)) fs))))"

definition rmtree :: "path \<Rightarrow> node \<Rightarrow> error + node" where
  "rmtree p fs =
     (case lookup fs p of
        None \<Rightarrow> Inl (FileNotFoundError p)
      | Some (File c) \<Rightarrow> Inl (NotADirectoryError p)
      | Some (Dir es) \<Rightarrow>
          if p = [] then Inl (External ''cannot remove the root directory'')
          else Inr (set_at p None fs))"

definition copytree :: "path \<Rightarrow> path \<Rightarrow> node \<Rightarrow> error + node" where
  \<comment> \<open>\<^verbatim>\<open>shutil.copytree(src, dst)\<close>: \<open>dst\<close> must not exist, its missing parents are created\<close>
  "copytree src dst fs =
     (case lookup fs src of
        None \<Rightarrow> Inl (FileNotFoundError src)
      | Some (File c) \<Rightarrow> Inl (NotADirectoryError src)
      | Some (Dir es) \<Rightarrow>
          (case makedirs dst fs of
             Inl e \<Rightarrow> Inl e
           | Inr fs' \<Rightarrow> Inr (set_at dst (Some (Dir es)) fs')))"

section \<open>The world of one run\<close>

text \<open>
  What the worker does is observable as a sequence of actions: the two Qt signals
  (\<^verbatim>\<open>progress\<close>, \<^verbatim>\<open>finished\<close>), the log records, the calls to the API client and to
  \<^verbatim>\<open>requests\<close>, and the operations on the filesystem, each recorded when it is attempted.
\<close>

datatype fsop =
    Mkdtemp
  | WriteFile path
  | ExtractAll path
  | Rmtree path
  | Copytree path path
  | Mkdir path

datatype action =
    Progress string
  | Finished bool string
  | LogError string
  | LogInfo string
  | LogWarning string
  | DownloadRepositoryZip string string
  | GetPatchFiles string string
  | RequestsGet string
  | FindPluginRoot path "path option"
  | FsOp fsop

text \<open>
  The collaborators are parameters. An API call returns its value or raises; Python's
  \<^verbatim>\<open>None\<close> is \<open>None\<close>. \<open>zip_extractall\<close> is \<^verbatim>\<open>ZipFile(...).extractall(dir)\<close>: from the
  archive's bytes and the entries of the directory it gives the entries afterwards and the
  exception raised, if any (a corrupt archive may fail after some members were written).
  \<open>io_fault\<close> is the operating system refusing an operation for a reason outside the tree:
  it gives the text of the exception and, optionally, what the failed operation leaves at
  its target path. \<open>random_names\<close> are the candidate names \<^verbatim>\<open>mkdtemp\<close> tries in turn.
\<close>

type_synonym dict = "string \<rightharpoonup> string"

record env =
  download_repository_zip :: "string \<Rightarrow> string \<Rightarrow> error + string option"
  get_patch_files :: "string \<Rightarrow> string \<Rightarrow> error + dict list option"
  requests_get :: "string \<Rightarrow> error + string"
  zip_extractall :: "string \<Rightarrow> (string \<times> node) list \<Rightarrow> (string \<times> node) list \<times> error option"
  gettempdir :: path
  random_names :: "string list"
  io_fault :: "fsop \<Rightarrow> (string \<times> node option) option"

record item =
  owner :: "dict option"
  name :: "string option"

record worker =
  item_data :: item
  install_path :: path
  item_type :: string
  is_update :: bool

record state =
  fs :: node
  trace :: "action list"
  temp_dir :: "path option"

text \<open>
  A statement of the worker takes the state and gives the state afterwards together with
  its value or the exception it raised. \<open>temp_dir\<close> is the local variable of that name:
  \<open>None\<close> as long as it is unbound.
\<close>

type_synonym 'a io = "state \<Rightarrow> (error + 'a) \<times> state"

definition io_return :: "'a \<Rightarrow> 'a io" where
  "io_return x s = (Inr x, s)"

definition io_raise :: "error \<Rightarrow> 'a io" where
  "io_raise e s = (Inl e, s)"

definition io_bind :: "'a io \<Rightarrow> ('a \<Rightarrow> 'b io) \<Rightarrow> 'b io" where
  "io_bind m f s = (case m s of (Inl e, s') \<Rightarrow> (Inl e, s') | (Inr x, s') \<Rightarrow> f x s')"

definition try_except :: "unit io \<Rightarrow> (error \<Rightarrow> unit io) \<Rightarrow> unit io" where
  \<comment> \<open>\<^verbatim>\<open>try: body  except Exception as e: handler\<close>\<close>
  "try_except body handler s =
     (case body s of (Inl e, s') \<Rightarrow> handler e s' | (Inr x, s') \<Rightarrow> (Inr x, s'))"

definition try_finally :: "unit io \<Rightarrow> unit io \<Rightarrow> unit io" where
  \<comment> \<open>\<^verbatim>\<open>try: body  finally: final\<close>: an exception pending from the body is raised again
      after the final block, unless that block raises one itself\<close>
  "try_finally body final s =
     (case body s of (r, s') \<Rightarrow>
        (case final s' of (Inl e, s'') \<Rightarrow> (Inl e, s'') | (Inr x, s'') \<Rightarrow> (r, s'')))"

definition act :: "action \<Rightarrow> unit io" where
  "act a s = (Inr (), s\<lparr>trace := trace s @ [a]\<rparr>)"

definition subscript :: "dict \<Rightarrow> string \<Rightarrow> string io" where
  \<comment> \<open>\<^verbatim>\<open>d[k]\<close>\<close>
  "subscript d k = (case d k of None \<Rightarrow> io_raise (KeyError k) | Some v \<Rightarrow> io_return v)"

definition fs_op :: "env \<Rightarrow> fsop \<Rightarrow> path \<Rightarrow> (node \<Rightarrow> error + node) \<Rightarrow> unit io" where
  "fs_op env op target f s =
     (let s1 = s\<lparr>trace := trace s @ [FsOp op]\<rparr> in
      case io_fault env op of
        Some (d, residue) \<Rightarrow>
          (Inl (External d),
           s1\<lparr>fs := (case residue of None \<Rightarrow> fs s | Some nd \<Rightarrow> set_at target (Some nd) (fs s))\<rparr>)
      | None \<Rightarrow>
          (case f (fs s) of
             Inl e \<Rightarrow> (Inl e, s1)
           | Inr fs' \<Rightarrow> (Inr (), s1\<lparr>fs := fs'\<rparr>)))"

definition mkdtemp :: "env \<Rightarrow> string \<Rightarrow> path io" where
  "mkdtemp env pfx s =
     (let s1 = s\<lparr>trace := trace s @ [FsOp Mkdtemp]\<rparr> in
      case io_fault env Mkdtemp of
        Some (d, residue) \<Rightarrow> (Inl (External d), s1)
      | None \<Rightarrow>
          (case List.find (\<lambda>n. \<not> path_exists (fs s) (gettempdir env @ [pfx @ n])) (random_names env) of
             None \<Rightarrow> (Inl (External ''[Errno 17] No usable temporary directory name found''), s1)
           | Some n \<Rightarrow>
               (case os_mkdir (gettempdir env @ [pfx @ n]) (fs s) of
                  Inl e \<Rightarrow> (Inl e, s1)
                | Inr fs' \<Rightarrow> (Inr (gettempdir env @ [pfx @ n]), s1\<lparr>fs := fs'\<rparr>))))"

definition extractall :: "env \<Rightarrow> path \<Rightarrow> path \<Rightarrow> unit io" where
  \<comment> \<open>\<^verbatim>\<open>with zipfile.ZipFile(zip_path, 'r') as zip_ref: zip_ref.extractall(dir)\<close>\<close>
  "extractall env zip_path dir s =
     (let s1 = s\<lparr>trace := trace s @ [FsOp (ExtractAll dir)]\<rparr> in
      case lookup (fs s) zip_path of
        None \<Rightarrow> (Inl (FileNotFoundError zip_path), s1)
      | Some (Dir es) \<Rightarrow> (Inl (IsADirectoryError zip_path), s1)
      | Some (File bytes) \<Rightarrow>
          (case lookup (fs s) dir of
             None \<Rightarrow> (Inl (FileNotFoundError dir), s1)
           | Some (File c) \<Rightarrow> (Inl (NotADirectoryError dir), s1)
           | Some (Dir es) \<Rightarrow>
               (case zip_extractall env bytes es of
                  (es', err) \<Rightarrow>
                    (case err of None \<Rightarrow> Inr () | Some e \<Rightarrow> Inl e,
                     s1\<lparr>fs := set_at dir (Some (Dir es')) (fs s)\<rparr>))))"

definition api_call :: "action \<Rightarrow> error + 'a \<Rightarrow> 'a io" where
  "api_call a r s = (r, s\<lparr>trace := trace s @ [a]\<rparr>)"

definition show_digit :: "nat \<Rightarrow> char" where
  "show_digit d = ''0123456789'' ! d"

function show_nat :: "nat \<Rightarrow> string" where
  "show_nat n = (if n < 10 then [show_digit n] else show_nat (n div 10) @ [show_digit (n mod 10)])"
  by pat_completeness auto
termination
  by (relation "measure id") auto

declare show_nat.simps [simp del]

section \<open>\<^verbatim>\<open>DownloadWorker.run\<close>\<close>

text \<open>Lines 96 to 112: name the plugin, replace the install target, report success.\<close>

definition install_plugin :: "env \<Rightarrow> worker \<Rightarrow> string \<Rightarrow> path \<Rightarrow> unit io" where
  "install_plugin env w repo plugin_dir =
     (let plugin_name = install_name (path_name plugin_dir);
          target = install_path w @ [''plugins'', plugin_name]
      in io_bind (act (Progress ''Installing...'')) (\<lambda>_.
         io_bind (\<lambda>s. if path_exists (fs s) target
                      then fs_op env (Rmtree target) target (rmtree target) s
                      else io_return () s) (\<lambda>_.
         io_bind (fs_op env (Copytree plugin_dir target) target (copytree plugin_dir target)) (\<lambda>_.
         act (Finished True
                (if is_update w then repo @ '' updated successfully!''
                 else repo @ '' installed successfully!''))))))"

text \<open>Lines 73 to 94: the workspace, the archive file, the extraction, the locator.\<close>

definition extract_and_install :: "env \<Rightarrow> worker \<Rightarrow> string \<Rightarrow> string \<Rightarrow> unit io" where
  "extract_and_install env w repo zip_content =
     io_bind (mkdtemp env ''koreader_store_'') (\<lambda>t.
     io_bind (\<lambda>s. (Inr (), s\<lparr>temp_dir := Some t\<rparr>)) (\<lambda>_.
     io_bind (fs_op env (WriteFile (t @ [repo @ ''.zip''])) (t @ [repo @ ''.zip''])
                (write_file (t @ [repo @ ''.zip'']) zip_content)) (\<lambda>_.
     io_bind (act (Progress ''Extracting...'')) (\<lambda>_.
     io_bind (extractall env (t @ [repo @ ''.zip'']) t) (\<lambda>_.
     io_bind (act (Progress ''Analyzing plugin structure...'')) (\<lambda>_.
     io_bind (\<lambda>s. (Inr (find_plugin_root (fs s) t),
                   s\<lparr>trace := trace s @ [FindPluginRoot t (find_plugin_root (fs s) t)]\<rparr>))
       (\<lambda>plugin_dir.
          case plugin_dir of
            None \<Rightarrow>
              act (Finished False ''No valid plugin structure found (main.lua/_meta.lua missing)'')
          | Some d \<Rightarrow> install_plugin env w repo d)))))))"

text \<open>Lines 66 to 71. \<^verbatim>\<open>not zip_content\<close> holds for \<^verbatim>\<open>None\<close> and for empty bytes.\<close>

definition run_plugin :: "env \<Rightarrow> worker \<Rightarrow> string \<Rightarrow> string \<Rightarrow> unit io" where
  "run_plugin env w owner_login repo =
     io_bind (act (Progress (''Downloading '' @ repo @ ''...''))) (\<lambda>_.
     io_bind (api_call (DownloadRepositoryZip owner_login repo)
                (download_repository_zip env owner_login repo)) (\<lambda>zip_content.
       case zip_content of
         None \<Rightarrow> act (Finished False ''Failed to download repository'')
       | Some bytes \<Rightarrow>
           if bytes = [] then act (Finished False ''Failed to download repository'')
           else extract_and_install env w repo bytes))"

text \<open>Lines 122 to 126: the loop over the patches.\<close>

fun install_patches :: "env \<Rightarrow> path \<Rightarrow> dict list \<Rightarrow> unit io" where
  "install_patches env patch_dir [] = io_return ()"
| "install_patches env patch_dir (patch # patches) =
     io_bind (subscript patch ''download_url'') (\<lambda>url.
     io_bind (api_call (RequestsGet url) (requests_get env url)) (\<lambda>text.
     io_bind (subscript patch ''name'') (\<lambda>n.
     io_bind (fs_op env (WriteFile (patch_dir @ [n])) (patch_dir @ [n])
                (write_file (patch_dir @ [n]) text)) (\<lambda>_.
     install_patches env patch_dir patches))))"

text \<open>Lines 116 to 130. \<^verbatim>\<open>if patches\<close> fails for \<^verbatim>\<open>None\<close> and for the empty list.\<close>

definition run_patch :: "env \<Rightarrow> worker \<Rightarrow> string \<Rightarrow> string \<Rightarrow> unit io" where
  "run_patch env w owner_login repo =
     io_bind (api_call (GetPatchFiles owner_login repo) (get_patch_files env owner_login repo))
       (\<lambda>patches.
          case patches of
            None \<Rightarrow> act (Finished False ''No patches found'')
          | Some ps \<Rightarrow>
              if ps = [] then act (Finished False ''No patches found'')
              else
                io_bind (act (Progress ''Downloading patches...'')) (\<lambda>_.
                io_bind (fs_op env (Mkdir (install_path w @ [''patches'']))
                           (install_path w @ [''patches''])
                           (mkdir_exist_ok (install_path w @ [''patches'']))) (\<lambda>_.
                io_bind (install_patches env (install_path w @ [''patches'']) ps) (\<lambda>_.
                act (Finished True (show_nat (length ps) @ '' patch(es) installed!''))))))"

text \<open>Lines 62 to 130: the body of the \<^verbatim>\<open>try\<close>.\<close>

definition run_body :: "env \<Rightarrow> worker \<Rightarrow> unit io" where
  "run_body env w =
     io_bind (case owner (item_data w) of
                None \<Rightarrow> io_raise (KeyError ''owner'')
              | Some d \<Rightarrow> subscript d ''login'') (\<lambda>owner_login.
     io_bind (case name (item_data w) of
                None \<Rightarrow> io_raise (KeyError ''name'')
              | Some n \<Rightarrow> io_return n) (\<lambda>repo.
       if item_type w = ''plugin'' then run_plugin env w owner_login repo
       else if item_type w = ''patch'' then run_patch env w owner_login repo
       else io_return ()))"

text \<open>Lines 132 to 134: the handler.\<close>

definition handler :: "error \<Rightarrow> unit io" where
  "handler e =
     io_bind (act (LogError (''Error during installation: '' @ str_error e))) (\<lambda>_.
     act (Finished False (''Error: '' @ str_error e)))"

text \<open>Lines 135 to 142: the \<^verbatim>\<open>finally\<close> block.\<close>

definition cleanup :: "env \<Rightarrow> unit io" where
  "cleanup env s =
     (case temp_dir s of
        None \<Rightarrow> (Inr (), s)
      | Some t \<Rightarrow>
          if path_exists (fs s) t
          then try_except
                 (io_bind (fs_op env (Rmtree t) t (rmtree t)) (\<lambda>_.
                  act (LogInfo (''Cleaned up temporary directory: '' @ render t))))
                 (\<lambda>cleanup_error.
                    act (LogWarning (''Failed to cleanup temporary directory '' @ render t
                                     @ '': '' @ str_error cleanup_error)))
                 s
          else (Inr (), s))"

definition run_try :: "env \<Rightarrow> worker \<Rightarrow> unit io" where
  "run_try env w = try_except (run_body env w) handler"

definition run_io :: "env \<Rightarrow> worker \<Rightarrow> unit io" where
  "run_io env w = try_finally (run_try env w) (cleanup env)"

definition start :: "node \<Rightarrow> state" where
  "start fs0 = \<lparr>fs = fs0, trace = [], temp_dir = None\<rparr>"

definition run :: "env \<Rightarrow> worker \<Rightarrow> node \<Rightarrow> (error + unit) \<times> state" where
  "run env w fs0 = run_io env w (start fs0)"

text \<open>The outcomes a run has emitted, in order.\<close>

fun outcomes :: "action list \<Rightarrow> (bool \<times> string) list" where
  "outcomes [] = []"
| "outcomes (Finished ok msg # as) = (ok, msg) # outcomes as"
| "outcomes (a # as) = outcomes as"

section \<open>Properties of statements\<close>

text \<open>
  A statement is \<open>silent\<close> when it emits no \<^verbatim>\<open>finished\<close> signal, however it ends; it is
  \<open>finishing\<close> when it emits the signal exactly once if it returns and not at all if it
  raises.
\<close>

definition silent :: "'a io \<Rightarrow> bool" where
  "silent m \<longleftrightarrow> (\<forall>s r s'. m s = (r, s') \<longrightarrow> outcomes (trace s') = outcomes (trace s))"

definition finishing :: "unit io \<Rightarrow> bool" where
  "finishing m \<longleftrightarrow> (\<forall>s r s'. m s = (r, s') \<longrightarrow>
      (case r of Inl e \<Rightarrow> outcomes (trace s') = outcomes (trace s)
               | Inr u \<Rightarrow> (\<exists>out. outcomes (trace s') = outcomes (trace s) @ [out])))"

text \<open>
  A path is \<open>outside\<close> a directory \<open>t\<close> when it is neither \<open>t\<close>, nor below \<open>t\<close>, nor one
  of the directories on the way to \<open>t\<close>. An action is \<open>early\<close> when it is neither the
  progress event of the install step, nor a locator call that found a plugin root, nor
  a \<^verbatim>\<open>copytree\<close>.
\<close>

definition outside :: "path \<Rightarrow> path \<Rightarrow> bool" where
  "outside t p \<longleftrightarrow> \<not> prefix t p \<and> \<not> prefix p t"

definition same_outside :: "path \<Rightarrow> node \<Rightarrow> node \<Rightarrow> bool" where
  "same_outside t r r' \<longleftrightarrow> (\<forall>p. outside t p \<longrightarrow> lookup r' p = lookup r p)"

fun early :: "action \<Rightarrow> bool" where
  "early (Progress msg) = (msg \<noteq> ''Installing...'')"
| "early (FindPluginRoot t found) = (found = None)"
| "early (FsOp (Copytree src dst)) = False"
| "early a = True"


definition confined :: "path \<Rightarrow> 'a io \<Rightarrow> bool" where
  "confined t m \<longleftrightarrow> (\<forall>s r s'. m s = (r, s') \<longrightarrow>
      temp_dir s' = temp_dir s \<and> same_outside t (fs s) (fs s') \<and>
      (\<exists>as. trace s' = trace s @ as \<and> (\<forall>a\<in>set as. early a)))"

definition gated :: "path \<Rightarrow> 'a io \<Rightarrow> bool" where
  "gated t m \<longleftrightarrow> (\<forall>s r s'. m s = (r, s') \<longrightarrow>
      temp_dir s' = temp_dir s \<and>
      (\<exists>as. trace s' = trace s @ as \<and>
         (Progress ''Installing...'' \<in> set as \<and> (\<exists>t' d. FindPluginRoot t' (Some d) \<in> set as)
          \<or> (\<forall>a\<in>set as. early a) \<and> same_outside t (fs s) (fs s'))))"

text \<open>
  \<open>harmless\<close>: the statement adds early actions only and leaves the filesystem and
  \<^verbatim>\<open>temp_dir\<close> as they are. \<open>kept_outside s s'\<close> relates the states before and after a
  stretch of a plugin run: either a plugin root was located and the install step
  announced, or only early actions were added and the filesystem is unchanged outside
  the workspace (unchanged altogether when no workspace was bound).
\<close>

definition harmless :: "'a io \<Rightarrow> bool" where
  "harmless m \<longleftrightarrow> (\<forall>s r s'. m s = (r, s') \<longrightarrow>
      temp_dir s' = temp_dir s \<and> fs s' = fs s \<and>
      (\<exists>as. trace s' = trace s @ as \<and> (\<forall>a\<in>set as. early a)))"

definition kept_outside :: "state \<Rightarrow> state \<Rightarrow> bool" where
  "kept_outside s s' \<longleftrightarrow>
     (\<exists>as. trace s' = trace s @ as \<and>
        (Progress ''Installing...'' \<in> set as \<and> (\<exists>t' d. FindPluginRoot t' (Some d) \<in> set as)
         \<or> (\<forall>a\<in>set as. early a) \<and>
           (case temp_dir s' of None \<Rightarrow> fs s' = fs s | Some t \<Rightarrow> same_outside t (fs s) (fs s'))))"

section \<open>The phases of the specification\<close>

text \<open>
  The code has no state variable; section 4.2 of the specification names the phases and
  says what is done in each. \<open>spec_phase\<close> reads that section: it gives the phase an
  action belongs to, for a plugin run (\<open>True\<close>) and for a patch run (\<open>False\<close>).
  Fetching and writing a patch are both "Staging/Committing" there. \<^verbatim>\<open>rmtree\<close> is called
  at two places, on the install target (line 104, a commit step) and on the workspace
  (line 139, the cleanup), so the action alone does not tell its phase and gets none; the
  cleanup is identified by the log record that follows it.
\<close>

datatype phase = Downloading | Extracting | Locating | Staging | Committing | CleaningUp | Terminal






section \<open>Notions for the patch loop\<close>




section \<open>Notions for the locator\<close>

text \<open>
  In a well-formed tree no directory holds two entries of the same name. A directory
  has the marker files when both names are among its entries that are not directories.
\<close>

fun wf :: "node \<Rightarrow> bool" and wf_entries :: "(string \<times> node) list \<Rightarrow> bool" where
  "wf (File c) = True"
| "wf (Dir es) = (distinct (map fst es) \<and> wf_entries es)"
| "wf_entries [] = True"
| "wf_entries (e # es) = (wf (snd e) \<and> wf_entries es)"

definition marker_files :: "(string \<times> node) list \<Rightarrow> bool" where
  "marker_files es \<longleftrightarrow> ''main.lua'' \<in> set (filenames es) \<and> ''_meta.lua'' \<in> set (filenames es)"

section \<open>Concrete scenarios\<close>

text \<open>
  The scenarios of the specification's section 8, used below to run the model: a disk with
  a temporary directory and an install root, an API client that serves a release-style
  archive (marker files at the archive root), one that serves a repository-style archive
  (the plugin in a subdirectory), one that serves nothing, and one that lists two patches.
\<close>

definition no_fault :: "fsop \<Rightarrow> (string \<times> node option) option" where
  "no_fault op = None"

definition store_disk :: node where
  "store_disk = Dir [(''tmp'', Dir []), (''opt'', Dir [(''koreader'', Dir [])])]"

definition release_env :: "string \<Rightarrow> env" where
  "release_env random_name = \<lparr>
     download_repository_zip = (\<lambda>owner_login repo. Inr (Some ''PK'')),
     get_patch_files = (\<lambda>owner_login repo. Inr None),
     requests_get = (\<lambda>url. Inl (External ''unreachable'')),
     zip_extractall =
       (\<lambda>bytes es. (es @ [(''main.lua'', File ''return {}''), (''_meta.lua'', File ''return 1'')], None)),
     gettempdir = [''tmp''],
     random_names = [random_name],
     io_fault = no_fault \<rparr>"

definition repository_env :: env where
  "repository_env = \<lparr>
     download_repository_zip = (\<lambda>owner_login repo. Inr (Some ''PK'')),
     get_patch_files = (\<lambda>owner_login repo. Inr None),
     requests_get = (\<lambda>url. Inl (External ''unreachable'')),
     zip_extractall =
       (\<lambda>bytes es.
          (es @ [(''pluginrepo-main'',
                  Dir [(''coolplugin.koplugin'',
                        Dir [(''main.lua'', File ''return {}''),
                             (''_meta.lua'', File ''return 1''),
                             (''other.lua'', File ''return 2'')])])], None)),
     gettempdir = [''tmp''],
     random_names = [''k3j2x9qa''],
     io_fault = no_fault \<rparr>"

definition empty_env :: env where
  "empty_env = \<lparr>
     download_repository_zip = (\<lambda>owner_login repo. Inr None),
     get_patch_files = (\<lambda>owner_login repo. Inr (Some [])),
     requests_get = (\<lambda>url. Inl (External ''unreachable'')),
     zip_extractall = (\<lambda>bytes es. (es, Some (External ''File is not a zip file''))),
     gettempdir = [''tmp''],
     random_names = [''k3j2x9qa''],
     io_fault = no_fault \<rparr>"

definition corrupt_env :: env where
  "corrupt_env = \<lparr>
     download_repository_zip = (\<lambda>owner_login repo. Inr (Some ''not a zip'')),
     get_patch_files = (\<lambda>owner_login repo. Inr (Some [])),
     requests_get = (\<lambda>url. Inl (External ''unreachable'')),
     zip_extractall = (\<lambda>bytes es. (es, Some (External ''File is not a zip file''))),
     gettempdir = [''tmp''],
     random_names = [''k3j2x9qa''],
     io_fault = no_fault \<rparr>"

definition two_patches :: "dict list" where
  "two_patches =
     [[''name'' \<mapsto> ''2-fix-margins.lua'', ''download_url'' \<mapsto> ''https://example.org/a''],
      [''name'' \<mapsto> ''2-dark-menu.lua'', ''download_url'' \<mapsto> ''https://example.org/b'']]"

definition patch_env :: env where
  "patch_env = \<lparr>
     download_repository_zip = (\<lambda>owner_login repo. Inr None),
     get_patch_files = (\<lambda>owner_login repo. Inr (Some two_patches)),
     requests_get =
       (\<lambda>url. if url = ''https://example.org/a'' then Inr ''-- margins''
              else if url = ''https://example.org/b'' then Inr ''-- menu''
              else Inl (External ''404'')),
     zip_extractall = (\<lambda>bytes es. (es, None)),
     gettempdir = [''tmp''],
     random_names = [''k3j2x9qa''],
     io_fault = no_fault \<rparr>"

definition package_xy :: item where
  "package_xy = \<lparr> owner = Some [''login'' \<mapsto> ''x''], name = Some ''y'' \<rparr>"

definition plugin_worker :: worker where
  "plugin_worker = \<lparr> item_data = package_xy, install_path = [''opt'', ''koreader''],
                      item_type = ''plugin'', is_update = False \<rparr>"

definition patch_worker :: worker where
  "patch_worker = \<lparr> item_data = package_xy, install_path = [''opt'', ''koreader''],
                     item_type = ''patch'', is_update = False \<rparr>"

definition theme_worker :: worker where
  "theme_worker = \<lparr> item_data = package_xy, install_path = [''opt'', ''koreader''],
                     item_type = ''theme'', is_update = False \<rparr>"

definition bare_theme_worker :: worker where
  "bare_theme_worker = \<lparr> item_data = \<lparr> owner = None, name = Some ''y'' \<rparr>,
                          install_path = [''opt'', ''koreader''],
                          item_type = ''theme'', is_update = False \<rparr>"

definition marker_directories_disk :: node where
  \<comment> \<open>a workspace whose only entries are two directories named like the marker files\<close>
  "marker_directories_disk =
     Dir [(''ws'', Dir [(''main.lua'', Dir []), (''_meta.lua'', Dir [])])]"

definition workspace :: path where
  "workspace = [''tmp'', ''koreader_store_k3j2x9qa'']"

definition stubborn_env :: env where
  \<comment> \<open>as \<open>repository_env\<close>, but the operating system refuses to remove the workspace\<close>
  "stubborn_env = repository_env
     \<lparr> io_fault := (\<lambda>op. if op = Rmtree workspace
                         then Some (''[Errno 13] Permission denied'', None) else None) \<rparr>"



section \<open>Facts about the filesystem operations\<close>

lemmas io_defs = io_bind_def io_return_def io_raise_def try_except_def try_finally_def act_def
  subscript_def fs_op_def mkdtemp_def extractall_def api_call_def

lemmas run_defs = run_def run_io_def run_try_def run_body_def run_plugin_def run_patch_def
  extract_and_install_def install_plugin_def handler_def cleanup_def start_def

lemma lookup_append:
  "lookup r (p @ q) = (case lookup r p of None \<Rightarrow> None | Some nd \<Rightarrow> lookup nd q)"
  by (induction r p rule: lookup.induct) (auto split: option.splits)

lemma map_of_delete_same: "map_of (AList.delete n es) n = None"
  by (simp add: AList.delete_conv')

text \<open>Removing an entry removes it, wherever it is.\<close>

lemma set_at_None_aux: "v = None \<Longrightarrow> p \<noteq> [] \<Longrightarrow> lookup (set_at p v r) p = None"
proof (induction p v r rule: set_at.induct)
  case (1 v nd)
  then show ?case by simp
next
  case (2 n p v c)
  then show ?case by simp
next
  case (3 n v es)
  then show ?case by (simp add: map_of_delete_same)
next
  case (4 n m p v es)
  then show ?case by (auto simp: AList.update_conv' split: option.splits)
qed

lemma set_at_None_gone: "p \<noteq> [] \<Longrightarrow> lookup (set_at p None r) p = None"
  by (simp add: set_at_None_aux)

text \<open>Storing an entry in an existing directory makes it the entry found there.\<close>

lemma set_at_Some_there:
  "p \<noteq> [] \<Longrightarrow> lookup r (butlast p) = Some (Dir es) \<Longrightarrow> lookup (set_at p (Some c) r) p = Some c"
proof (induction p "Some c" r arbitrary: es rule: set_at.induct)
  case (1 nd)
  then show ?case by simp
next
  case (2 n p c')
  then show ?case by (cases p) auto
next
  case (3 n es')
  then show ?case by (simp add: AList.update_conv')
next
  case (4 n m p es')
  then show ?case by (auto simp: AList.update_conv' split: option.splits)
qed

text \<open>
  A change at \<open>q\<close> is invisible at every path that is neither inside \<open>q\<close> nor on the
  way to it.
\<close>

lemma set_at_frame:
  "\<not> prefix q p \<Longrightarrow> \<not> prefix p q \<Longrightarrow> lookup (set_at q v r) p = lookup r p"
proof (induction q v r arbitrary: p rule: set_at.induct)
  case (1 v nd)
  then show ?case by simp
next
  case (2 n q v c)
  then show ?case by (cases p) auto
next
  case (3 n v es)
  then show ?case
    by (cases p) (auto simp: AList.update_conv' AList.delete_conv' split: option.splits)
next
  case (4 n m q v es)
  then show ?case by (cases p) (auto simp: AList.update_conv' split: option.splits)
qed

section \<open>What the locator finds\<close>

lemma wf_entries_member: "wf_entries es \<Longrightarrow> (n, c) \<in> set es \<Longrightarrow> wf c"
  by (induction es) auto

lemma walk_members:
  "wf nd \<Longrightarrow>
     t \<in> set (walk root nd)
     \<longleftrightarrow> (\<exists>p es. t = (root @ p, dirnames es, filenames es) \<and> lookup nd p = Some (Dir es))"
  "distinct (map fst es0) \<Longrightarrow> wf_entries es0 \<Longrightarrow>
     t \<in> set (walk_entries root es0)
     \<longleftrightarrow> (\<exists>n c p es. (n, c) \<in> set es0 \<and> t = (root @ n # p, dirnames es, filenames es)
                      \<and> lookup c p = Some (Dir es))"
proof (induction root nd and root es0 arbitrary: t and t rule: walk_walk_entries.induct)
  case (1 root c)
  show ?case
  proof
    assume "t \<in> set (walk root (File c))"
    then show "\<exists>p es. t = (root @ p, dirnames es, filenames es) \<and> lookup (File c) p = Some (Dir es)"
      by simp
  next
    assume "\<exists>p es. t = (root @ p, dirnames es, filenames es) \<and> lookup (File c) p = Some (Dir es)"
    then obtain p es where "lookup (File c) p = Some (Dir es)" by blast
    then have False by (cases p) auto
    then show "t \<in> set (walk root (File c))" ..
  qed
next
  case (2 root es)
  then have d: "distinct (map fst es)" and w: "wf_entries es" by auto
  note IH = "2.IH" [OF d w]
  show ?case
  proof
    assume "t \<in> set (walk root (Dir es))"
    then consider "t = (root, dirnames es, filenames es)" | "t \<in> set (walk_entries root es)"
      by auto
    then show "\<exists>p es'. t = (root @ p, dirnames es', filenames es') \<and> lookup (Dir es) p = Some (Dir es')"
    proof cases
      case 1
      then have "t = (root @ [], dirnames es, filenames es) \<and> lookup (Dir es) [] = Some (Dir es)"
        by simp
      then show ?thesis by blast
    next
      case 2
      with IH obtain n c p es' where in_es: "(n, c) \<in> set es"
        and t: "t = (root @ n # p, dirnames es', filenames es')" and sub: "lookup c p = Some (Dir es')"
        by blast
      from d in_es have "map_of es n = Some c" by simp
      with sub have "lookup (Dir es) (n # p) = Some (Dir es')" by simp
      with t show ?thesis by blast
    qed
  next
    assume "\<exists>p es'. t = (root @ p, dirnames es', filenames es') \<and> lookup (Dir es) p = Some (Dir es')"
    then obtain p es' where t: "t = (root @ p, dirnames es', filenames es')"
      and sub: "lookup (Dir es) p = Some (Dir es')"
      by blast
    show "t \<in> set (walk root (Dir es))"
    proof (cases p)
      case Nil
      with t sub show ?thesis by simp
    next
      case (Cons n q)
      with sub obtain c where "map_of es n = Some c" and "lookup c q = Some (Dir es')"
        by (auto split: option.splits)
      then have "(n, c) \<in> set es" by (auto dest: map_of_SomeD)
      with \<open>lookup c q = Some (Dir es')\<close> t Cons IH have "t \<in> set (walk_entries root es)"
        by blast
      then show ?thesis by simp
    qed
  qed
next
  case (3 root)
  show ?case by simp
next
  case (4 root e es)
  from "4.prems" have d: "distinct (map fst es)" and w: "wf_entries es" and we: "wf (snd e)"
    by auto
  note IH1 = "4.IH"(1) [OF we]
  note IH2 = "4.IH"(2) [OF d w]
  show ?case
  proof
    assume "t \<in> set (walk_entries root (e # es))"
    then consider "t \<in> set (walk (root @ [fst e]) (snd e))" | "t \<in> set (walk_entries root es)"
      by auto
    then show "\<exists>n c p es'. (n, c) \<in> set (e # es) \<and> t = (root @ n # p, dirnames es', filenames es')
                      \<and> lookup c p = Some (Dir es')"
    proof cases
      case 1
      with IH1 obtain p es' where "t = ((root @ [fst e]) @ p, dirnames es', filenames es')"
        and "lookup (snd e) p = Some (Dir es')"
        by blast
      then have "(fst e, snd e) \<in> set (e # es) \<and> t = (root @ fst e # p, dirnames es', filenames es')
                      \<and> lookup (snd e) p = Some (Dir es')"
        by simp
      then show ?thesis by blast
    next
      case 2
      with IH2 obtain n c p es' where "(n, c) \<in> set es"
        and "t = (root @ n # p, dirnames es', filenames es')" and "lookup c p = Some (Dir es')"
        by blast
      then have "(n, c) \<in> set (e # es) \<and> t = (root @ n # p, dirnames es', filenames es')
                      \<and> lookup c p = Some (Dir es')"
        by simp
      then show ?thesis by blast
    qed
  next
    assume "\<exists>n c p es'. (n, c) \<in> set (e # es) \<and> t = (root @ n # p, dirnames es', filenames es')
                      \<and> lookup c p = Some (Dir es')"
    then obtain n c p es' where in_es: "(n, c) \<in> set (e # es)"
      and t: "t = (root @ n # p, dirnames es', filenames es')" and sub: "lookup c p = Some (Dir es')"
      by blast
    from in_es consider "e = (n, c)" | "(n, c) \<in> set es" by auto
    then show "t \<in> set (walk_entries root (e # es))"
    proof cases
      case 1
      with t sub have "t = ((root @ [fst e]) @ p, dirnames es', filenames es')
                       \<and> lookup (snd e) p = Some (Dir es')"
        by simp
      with IH1 have "t \<in> set (walk (root @ [fst e]) (snd e))" by blast
      then show ?thesis by simp
    next
      case 2
      with t sub IH2 have "t \<in> set (walk_entries root es)" by blast
      then show ?thesis by simp
    qed
  qed
qed

lemma wf_lookup: "wf r \<Longrightarrow> lookup r p = Some nd \<Longrightarrow> wf nd"
proof (induction r p rule: lookup.induct)
  case (1 nd')
  then show ?case by simp
next
  case (2 c n p)
  then show ?case by simp
next
  case (3 es n p)
  then obtain c where c: "map_of es n = Some c" and sub: "lookup c p = Some nd"
    by (auto split: option.splits)
  from c have "(n, c) \<in> set es" by (rule map_of_SomeD)
  with "3.prems"(1) have "wf c" by (auto dest: wf_entries_member)
  with "3.IH" c sub show ?case by simp
qed

lemma os_walk_members:
  assumes "wf r" and "lookup r base = Some (Dir es0)"
  shows "t \<in> set (os_walk r base)
         \<longleftrightarrow> (\<exists>p es. t = (base @ p, dirnames es, filenames es)
                      \<and> lookup r (base @ p) = Some (Dir es))"
proof -
  from assms have "wf (Dir es0)" by (rule wf_lookup)
  from walk_members(1) [OF this, of t base] assms(2) show ?thesis
    by (simp add: os_walk_def lookup_append)
qed

lemma names_split: "fst ` set es = set (dirnames es) \<union> set (filenames es)"
  by (auto simp: dirnames_def filenames_def)

text \<open>
  When no entry of \<open>base\<close> named like a marker file is a directory, the two tests of
  \<^verbatim>\<open>find_plugin_root\<close> agree: the result is the root of the first triple of \<^verbatim>\<open>os.walk\<close>
  whose files include both names.
\<close>

lemma find_plugin_root_first:
  assumes "lookup r base = Some (Dir es0)"
    and "''main.lua'' \<notin> set (dirnames es0)" and "''_meta.lua'' \<notin> set (dirnames es0)"
  shows "find_plugin_root r base = map_option fst (List.find has_markers (os_walk r base))"
proof -
  have exists: "path_exists r (base @ [n]) \<longleftrightarrow> n \<in> fst ` set es0" for n
  proof -
    have "path_exists r (base @ [n]) \<longleftrightarrow> map_of es0 n \<noteq> None"
      using assms(1) by (simp add: path_exists_def lookup_append split: option.splits)
    then show ?thesis by (simp add: map_of_eq_None_iff)
  qed
  have walk: "os_walk r base = (base, dirnames es0, filenames es0) # walk_entries base es0"
    using assms(1) by (simp add: os_walk_def)
  show ?thesis
  proof (cases "path_exists r (base @ [''main.lua'']) \<and> path_exists r (base @ [''_meta.lua''])")
    case True
    with exists assms(2,3) have "has_markers (base, dirnames es0, filenames es0)"
      by (auto simp: has_markers_def names_split)
    with True walk show ?thesis by (simp add: find_plugin_root_def)
  next
    case False
    then show ?thesis
      by (auto simp: find_plugin_root_def split: option.splits)
  qed
qed

lemma find_plugin_root_characterised:
  assumes "wf r" and "lookup r base = Some (Dir es0)"
    and "''main.lua'' \<notin> set (dirnames es0)" and "''_meta.lua'' \<notin> set (dirnames es0)"
  shows "(marker_files es0 \<longrightarrow> find_plugin_root r base = Some base)
       \<and> (find_plugin_root r base = None
            \<longleftrightarrow> (\<forall>p es. lookup r (base @ p) = Some (Dir es) \<longrightarrow> \<not> marker_files es))
       \<and> (\<forall>d. find_plugin_root r base = Some d
            \<longrightarrow> (\<exists>p es. d = base @ p \<and> lookup r d = Some (Dir es) \<and> marker_files es))"
proof -
  note first = find_plugin_root_first [OF assms(2-4)]
  note members = os_walk_members [OF assms(1,2)]
  have marked: "has_markers (q, dirnames es, filenames es) = marker_files es" for q es
    by (simp add: has_markers_def marker_files_def)
  have direct: "find_plugin_root r base = Some base" if "marker_files es0"
  proof -
    have "os_walk r base = (base, dirnames es0, filenames es0) # walk_entries base es0"
      using assms(2) by (simp add: os_walk_def)
    with that marked first show ?thesis by simp
  qed
  have none: "find_plugin_root r base = None
            \<longleftrightarrow> (\<forall>p es. lookup r (base @ p) = Some (Dir es) \<longrightarrow> \<not> marker_files es)"
  proof
    assume "find_plugin_root r base = None"
    with first have "List.find has_markers (os_walk r base) = None" by simp
    then have no: "\<forall>t\<in>set (os_walk r base). \<not> has_markers t"
      unfolding find_None_iff by blast
    show "\<forall>p es. lookup r (base @ p) = Some (Dir es) \<longrightarrow> \<not> marker_files es"
    proof (intro allI impI)
      fix p es assume "lookup r (base @ p) = Some (Dir es)"
      with members have "(base @ p, dirnames es, filenames es) \<in> set (os_walk r base)" by blast
      with no marked show "\<not> marker_files es" by blast
    qed
  next
    assume none: "\<forall>p es. lookup r (base @ p) = Some (Dir es) \<longrightarrow> \<not> marker_files es"
    have "\<not> has_markers t" if "t \<in> set (os_walk r base)" for t
    proof -
      from that members obtain p es where "t = (base @ p, dirnames es, filenames es)"
        and "lookup r (base @ p) = Some (Dir es)"
        by blast
      with none marked show ?thesis by simp
    qed
    then have "List.find has_markers (os_walk r base) = None"
      unfolding find_None_iff by blast
    with first show "find_plugin_root r base = None" by simp
  qed
  have some: "\<exists>p es. d = base @ p \<and> lookup r d = Some (Dir es) \<and> marker_files es"
    if "find_plugin_root r base = Some d" for d
  proof -
    from that first obtain t where "List.find has_markers (os_walk r base) = Some t" and "fst t = d"
      by auto
    then have "t \<in> set (os_walk r base)" and "has_markers t"
      by (auto simp: find_Some_iff)
    with members obtain p es where "t = (base @ p, dirnames es, filenames es)"
      and "lookup r (base @ p) = Some (Dir es)"
      by blast
    with \<open>has_markers t\<close> \<open>fst t = d\<close> marked show ?thesis by auto
  qed
  from direct none some show ?thesis by blast
qed

section \<open>The install name\<close>

text \<open>
  Claim C8. The install name of a candidate directory named \<open>foo.koplugin\<close> and of one
  named \<open>foo\<close> is \<open>foo.koplugin\<close> in both cases. In general the derivation is idempotent,
  its result always ends in the extension, the name is kept exactly when it already ends
  in the extension and is extended by it exactly when it does not, and the result ends in
  a doubled extension only if the directory name itself did.
\<close>

theorem install_name_idempotent:
  "install_name ''foo.koplugin'' = ''foo.koplugin''
   \<and> install_name ''foo'' = ''foo.koplugin''
   \<and> install_name (install_name n) = install_name n
   \<and> suffix ''.koplugin'' (install_name n)
   \<and> (install_name n = n) = suffix ''.koplugin'' n
   \<and> (install_name n = n @ ''.koplugin'') = (\<not> suffix ''.koplugin'' n)
   \<and> suffix (''.koplugin'' @ ''.koplugin'') (install_name n)
       = suffix (''.koplugin'' @ ''.koplugin'') n"
proof -
  have ext: "suffix ''.koplugin'' (m @ ''.koplugin'')" for m :: string
    by (simp add: suffix_def)
  have foo1: "install_name ''foo.koplugin'' = ''foo.koplugin''"
    by (simp add: install_name_def suffix_def)
  have foo2: "install_name ''foo'' = ''foo.koplugin''"
    by (simp add: install_name_def suffix_def)
  have idem: "install_name (install_name n) = install_name n"
    using ext by (simp add: install_name_def)
  have ends: "suffix ''.koplugin'' (install_name n)"
    using ext by (simp add: install_name_def)
  have kept: "(install_name n = n) = suffix ''.koplugin'' n"
    by (simp add: install_name_def)
  have added: "(install_name n = n @ ''.koplugin'') = (\<not> suffix ''.koplugin'' n)"
    by (simp add: install_name_def)
  have twice: "suffix (''.koplugin'' @ ''.koplugin'') (install_name n)
       = suffix (''.koplugin'' @ ''.koplugin'') n"
    unfolding install_name_def by (auto simp: suffix_def)
  from foo1 foo2 idem ends kept added twice show ?thesis
    by blast
qed

theorem install_name_idempotent_witness:
  "install_name (install_name ''coolplugin'') = ''coolplugin.koplugin''
   \<and> install_name ''coolplugin.koplugin'' = ''coolplugin.koplugin''"
  using install_name_idempotent [of "''coolplugin''"]
  by (simp add: install_name_def suffix_def)

section \<open>The \<^verbatim>\<open>finished\<close> signal, statement by statement\<close>

lemma outcomes_append: "outcomes (xs @ ys) = outcomes xs @ outcomes ys"
  by (induction xs rule: outcomes.induct) auto

lemma io_bind_cases:
  assumes "io_bind m f s = (r, s')"
  obtains (raised) e where "m s = (Inl e, s')" and "r = Inl e"
        | (returned) x s1 where "m s = (Inr x, s1)" and "f x s1 = (r, s')"
  using assms unfolding io_bind_def by (auto split: prod.splits sum.splits)

lemma silent_bind: "silent m \<Longrightarrow> (\<And>x. silent (f x)) \<Longrightarrow> silent (io_bind m f)"
  unfolding silent_def
proof (intro allI impI)
  fix s r s'
  assume m: "\<forall>s r s'. m s = (r, s') \<longrightarrow> outcomes (trace s') = outcomes (trace s)"
    and f: "\<And>x. \<forall>s r s'. f x s = (r, s') \<longrightarrow> outcomes (trace s') = outcomes (trace s)"
    and run: "io_bind m f s = (r, s')"
  from run show "outcomes (trace s') = outcomes (trace s)"
  proof (cases rule: io_bind_cases)
    case (raised e)
    with m show ?thesis by blast
  next
    case (returned x s1)
    with m f [of x] show ?thesis by metis
  qed
qed

lemma finishing_bind:
  assumes "silent m" and "\<And>x. finishing (f x)"
  shows "finishing (io_bind m f)"
  unfolding finishing_def
proof (intro allI impI)
  fix s r s'
  assume run: "io_bind m f s = (r, s')"
  then show "case r of Inl e \<Rightarrow> outcomes (trace s') = outcomes (trace s)
               | Inr u \<Rightarrow> (\<exists>out. outcomes (trace s') = outcomes (trace s) @ [out])"
  proof (cases rule: io_bind_cases)
    case (raised e)
    with assms(1) show ?thesis by (simp add: silent_def)
  next
    case (returned x s1)
    from assms(1) returned(1) have "outcomes (trace s1) = outcomes (trace s)"
      by (simp add: silent_def)
    moreover from assms(2) [of x] returned(2)
    have "case r of Inl e \<Rightarrow> outcomes (trace s') = outcomes (trace s1)
               | Inr u \<Rightarrow> (\<exists>out. outcomes (trace s') = outcomes (trace s1) @ [out])"
      unfolding finishing_def by blast
    ultimately show ?thesis by (auto split: sum.splits)
  qed
qed

lemma silent_act: "outcomes [a] = [] \<Longrightarrow> silent (act a)"
  by (simp add: silent_def act_def outcomes_append)

lemma finishing_act: "finishing (act (Finished ok msg))"
  by (simp add: finishing_def act_def outcomes_append)

lemma silent_return: "silent (io_return x)"
  by (simp add: silent_def io_return_def)

lemma silent_raise: "silent (io_raise e)"
  by (simp add: silent_def io_raise_def)

lemma finishing_raise: "finishing (io_raise e)"
  by (simp add: finishing_def io_raise_def)

lemma silent_subscript: "silent (subscript d k)"
  by (simp add: subscript_def silent_return silent_raise split: option.splits)

lemma silent_api_call: "outcomes [a] = [] \<Longrightarrow> silent (api_call a r)"
  by (simp add: silent_def api_call_def outcomes_append)

lemma silent_fs_op: "silent (fs_op env op target f)"
  by (auto simp: silent_def fs_op_def Let_def outcomes_append split: option.splits sum.splits)

lemma silent_mkdtemp: "silent (mkdtemp env pfx)"
  by (auto simp: silent_def mkdtemp_def Let_def outcomes_append split: option.splits sum.splits)

lemma silent_extractall: "silent (extractall env z d)"
  by (auto simp: silent_def extractall_def Let_def outcomes_append
      split: option.splits sum.splits node.splits prod.splits)

lemma install_plugin_finishing: "finishing (install_plugin env w repo d)"
proof -
  have removal: "silent (\<lambda>s. if path_exists (fs s) target
                      then fs_op env (Rmtree target) target (rmtree target) s
                      else io_return () s)" for target
    using silent_fs_op [of env "Rmtree target" target "rmtree target"] silent_return [of "()"]
    by (simp add: silent_def)
  show ?thesis
    unfolding install_plugin_def Let_def
    by (intro finishing_bind silent_act removal silent_fs_op finishing_act) simp_all
qed

lemma extract_and_install_finishing: "finishing (extract_and_install env w repo z)"
proof -
  have assign: "silent (\<lambda>s. (Inr (), s\<lparr>temp_dir := Some t\<rparr>))" for t
    by (simp add: silent_def)
  have locate: "silent (\<lambda>s. (Inr (find_plugin_root (fs s) t),
                   s\<lparr>trace := trace s @ [FindPluginRoot t (find_plugin_root (fs s) t)]\<rparr>))" for t
    by (simp add: silent_def outcomes_append)
  have last_step: "finishing (case plugin_dir of
            None \<Rightarrow>
              act (Finished False ''No valid plugin structure found (main.lua/_meta.lua missing)'')
          | Some d \<Rightarrow> install_plugin env w repo d)" for plugin_dir
    by (cases plugin_dir) (simp_all add: finishing_act install_plugin_finishing)
  show ?thesis
    unfolding extract_and_install_def
    by (intro finishing_bind silent_mkdtemp assign silent_fs_op silent_act silent_extractall
        locate last_step) simp_all
qed

lemma run_plugin_finishing: "finishing (run_plugin env w owner_login repo)"
proof -
  have last_step: "finishing (case zip_content of
         None \<Rightarrow> act (Finished False ''Failed to download repository'')
       | Some bytes \<Rightarrow>
           if bytes = [] then act (Finished False ''Failed to download repository'')
           else extract_and_install env w repo bytes)" for zip_content
    by (cases zip_content) (simp_all add: finishing_act extract_and_install_finishing)
  show ?thesis
    unfolding run_plugin_def
    by (intro finishing_bind silent_act silent_api_call last_step) simp_all
qed

lemma install_patches_silent: "silent (install_patches env patch_dir ps)"
proof (induction ps)
  case Nil
  then show ?case by (simp add: silent_return)
next
  case (Cons p ps)
  then show ?case
    by (simp, intro silent_bind silent_subscript silent_api_call silent_fs_op) simp_all
qed

lemma run_patch_finishing: "finishing (run_patch env w owner_login repo)"
proof -
  have last_step: "finishing (case patches of
            None \<Rightarrow> act (Finished False ''No patches found'')
          | Some ps \<Rightarrow>
              if ps = [] then act (Finished False ''No patches found'')
              else
                io_bind (act (Progress ''Downloading patches...'')) (\<lambda>_.
                io_bind (fs_op env (Mkdir (install_path w @ [''patches'']))
                           (install_path w @ [''patches''])
                           (mkdir_exist_ok (install_path w @ [''patches'']))) (\<lambda>_.
                io_bind (install_patches env (install_path w @ [''patches'']) ps) (\<lambda>_.
                act (Finished True (show_nat (length ps) @ '' patch(es) installed!''))))))" for patches
  proof (cases patches)
    case None
    then show ?thesis by (simp add: finishing_act)
  next
    case (Some ps)
    have "finishing (io_bind (act (Progress ''Downloading patches...'')) (\<lambda>_.
                io_bind (fs_op env (Mkdir (install_path w @ [''patches'']))
                           (install_path w @ [''patches''])
                           (mkdir_exist_ok (install_path w @ [''patches'']))) (\<lambda>_.
                io_bind (install_patches env (install_path w @ [''patches'']) ps) (\<lambda>_.
                act (Finished True (show_nat (length ps) @ '' patch(es) installed!''))))))"
      by (intro finishing_bind silent_act silent_fs_op install_patches_silent finishing_act) simp_all
    with Some show ?thesis by (simp add: finishing_act)
  qed
  show ?thesis
    unfolding run_patch_def
    by (intro finishing_bind silent_api_call last_step) simp_all
qed

lemma run_body_finishing:
  assumes "item_type w = ''plugin'' \<or> item_type w = ''patch''"
  shows "finishing (run_body env w)"
proof -
  have first: "silent (case owner (item_data w) of
                None \<Rightarrow> io_raise (KeyError ''owner'')
              | Some d \<Rightarrow> subscript d ''login'')"
    by (simp add: silent_raise silent_subscript split: option.splits)
  have second: "silent (case name (item_data w) of
                None \<Rightarrow> io_raise (KeyError ''name'')
              | Some n \<Rightarrow> io_return n)"
    by (simp add: silent_raise silent_return split: option.splits)
  have branch: "finishing (if item_type w = ''plugin'' then run_plugin env w owner_login repo
       else if item_type w = ''patch'' then run_patch env w owner_login repo
       else io_return ())" for owner_login repo
    using assms by (auto simp: run_plugin_finishing run_patch_finishing)
  show ?thesis
    unfolding run_body_def by (intro finishing_bind first second branch)
qed

section \<open>The \<^verbatim>\<open>finally\<close> block\<close>

lemma rmtree_gone: "rmtree t r = Inr r' \<Longrightarrow> lookup r' t = None"
  by (auto simp: rmtree_def set_at_None_gone split: option.splits node.splits if_splits)

lemma cleanup_cases:
  assumes "cleanup env s = (r, s')"
  shows "r = Inr () \<and> temp_dir s' = temp_dir s \<and>
    (case temp_dir s of
       None \<Rightarrow> s' = s
     | Some t \<Rightarrow>
         if path_exists (fs s) t
         then (\<exists>m. trace s' = trace s @ [FsOp (Rmtree t), m] \<and>
                  (m = LogInfo (''Cleaned up temporary directory: '' @ render t)
                     \<and> \<not> path_exists (fs s') t
                   \<or> (\<exists>e. m = LogWarning (''Failed to cleanup temporary directory '' @ render t
                                     @ '': '' @ str_error e))))
         else s' = s)"
proof (cases "temp_dir s")
  case None
  with assms show ?thesis by (simp add: cleanup_def)
next
  case (Some t)
  show ?thesis
  proof (cases "path_exists (fs s) t")
    case False
    with Some assms show ?thesis by (simp add: cleanup_def)
  next
    case True
    show ?thesis
    proof (cases "io_fault env (Rmtree t)")
      case fault: (Some f)
      obtain d residue where f: "f = (d, residue)" by (cases f)
      have "d = str_error (External d)" by simp
      with f fault Some True assms show ?thesis
        by (auto simp add: cleanup_def io_defs Let_def simp del: str_error.simps)
    next
      case None
      show ?thesis
      proof (cases "rmtree t (fs s)")
        case (Inl e)
        with None Some True assms show ?thesis
          by (auto simp: cleanup_def io_defs Let_def)
      next
        case (Inr r')
        then have "lookup r' t = None" by (rule rmtree_gone)
        with Inr None Some True assms show ?thesis
          by (auto simp: cleanup_def io_defs Let_def path_exists_def)
      qed
    qed
  qed
qed

section \<open>The run as a whole\<close>

lemma handler_cases:
  "handler e s = (Inr (), s\<lparr>trace := trace s @ [LogError (''Error during installation: '' @ str_error e),
                                                 Finished False (''Error: '' @ str_error e)]\<rparr>)"
  by (simp add: handler_def io_defs)

lemma run_try_cases:
  assumes "run_try env w s = (r, s')"
  shows "r = Inr () \<and>
     (case run_body env w s of
        (Inr u, s1) \<Rightarrow> s' = s1
      | (Inl e, s1) \<Rightarrow> s' = s1\<lparr>trace := trace s1 @ [LogError (''Error during installation: '' @ str_error e),
                                                 Finished False (''Error: '' @ str_error e)]\<rparr>)"
  using assms unfolding run_try_def try_except_def
  by (auto simp: handler_cases split: prod.splits sum.splits)

lemma run_cases:
  assumes "run_try env w (start fs0) = (r1, s1)" and "cleanup env s1 = (r2, s2)"
  shows "run env w fs0 = (r1, s2)"
  using assms cleanup_cases [OF assms(2)]
  by (simp add: run_def run_io_def try_finally_def)

section \<open>One terminal outcome\<close>

text \<open>
  Claim C2. A run whose kind is \<open>plugin\<close> or \<open>patch\<close> returns normally (no exception
  leaves \<^verbatim>\<open>run\<close>), its trace holds exactly one \<^verbatim>\<open>finished\<close> signal, and when the body of
  the \<^verbatim>\<open>try\<close> raised an exception \<open>e\<close>, whichever statement raised it, that one signal is
  \<^verbatim>\<open>finished(False, "Error: " + str(e))\<close>. Exceptions are instances of \<^verbatim>\<open>Exception\<close>, and
  emitting a signal and writing a log record do not raise.
\<close>

theorem run_finishes_exactly_once:
  assumes "item_type w = ''plugin'' \<or> item_type w = ''patch''"
  shows "fst (run env w fs0) = Inr ()
     \<and> length (outcomes (trace (snd (run env w fs0)))) = 1
     \<and> (\<forall>e s. run_body env w (start fs0) = (Inl e, s) \<longrightarrow>
           outcomes (trace (snd (run env w fs0))) = [(False, ''Error: '' @ str_error e)])"
proof -
  obtain r0 s0 where body: "run_body env w (start fs0) = (r0, s0)" by force
  obtain r1 s1 where tried: "run_try env w (start fs0) = (r1, s1)" by force
  obtain r2 s2 where fin: "cleanup env s1 = (r2, s2)" by force
  have run: "run env w fs0 = (r1, s2)" using tried fin by (rule run_cases)
  have r1: "r1 = Inr ()" using run_try_cases [OF tried] by simp
  have quiet: "outcomes (trace s2) = outcomes (trace s1)"
    using cleanup_cases [OF fin]
    by (auto simp: outcomes_append split: option.splits if_splits)
  from run_body_finishing [OF assms, of env] body
  have fin_body: "case r0 of Inl e \<Rightarrow> outcomes (trace s0) = []
                   | Inr u \<Rightarrow> (\<exists>out. outcomes (trace s0) = [out])"
    unfolding finishing_def by (fastforce simp: start_def split: sum.splits)
  have once: "length (outcomes (trace s1)) = 1"
    and err: "\<forall>e. r0 = Inl e \<longrightarrow> outcomes (trace s1) = [(False, ''Error: '' @ str_error e)]"
    using run_try_cases [OF tried] body fin_body
    by (auto simp: outcomes_append split: sum.splits)
  from run r1 quiet once err body show ?thesis by auto
qed

theorem run_finishes_exactly_once_witness:
  "fst (run corrupt_env plugin_worker store_disk) = Inr ()
   \<and> run_body corrupt_env plugin_worker (start store_disk)
       = (Inl (External ''File is not a zip file''),
           \<lparr>fs = Dir [(''tmp'', Dir [(''koreader_store_k3j2x9qa'', Dir [(''y.zip'', File ''not a zip'')])]),
                      (''opt'', Dir [(''koreader'', Dir [])])],
            trace = [Progress ''Downloading y...'', DownloadRepositoryZip ''x'' ''y'', FsOp Mkdtemp,
                     FsOp (WriteFile [''tmp'', ''koreader_store_k3j2x9qa'', ''y.zip'']),
                     Progress ''Extracting...'',
                     FsOp (ExtractAll [''tmp'', ''koreader_store_k3j2x9qa''])],
            temp_dir = Some [''tmp'', ''koreader_store_k3j2x9qa'']\<rparr>)
   \<and> outcomes (trace (snd (run corrupt_env plugin_worker store_disk)))
       = [(False, ''Error: File is not a zip file'')]"
proof -
  have kind: "item_type plugin_worker = ''plugin'' \<or> item_type plugin_worker = ''patch''"
    by (simp add: plugin_worker_def)
  have body: "run_body corrupt_env plugin_worker (start store_disk)
       = (Inl (External ''File is not a zip file''),
           \<lparr>fs = Dir [(''tmp'', Dir [(''koreader_store_k3j2x9qa'', Dir [(''y.zip'', File ''not a zip'')])]),
                      (''opt'', Dir [(''koreader'', Dir [])])],
            trace = [Progress ''Downloading y...'', DownloadRepositoryZip ''x'' ''y'', FsOp Mkdtemp,
                     FsOp (WriteFile [''tmp'', ''koreader_store_k3j2x9qa'', ''y.zip'']),
                     Progress ''Extracting...'',
                     FsOp (ExtractAll [''tmp'', ''koreader_store_k3j2x9qa''])],
            temp_dir = Some [''tmp'', ''koreader_store_k3j2x9qa'']\<rparr>)"
    by code_simp
  from run_finishes_exactly_once [OF kind, of corrupt_env store_disk] body
  show ?thesis by simp
qed

section \<open>The workspace is cleaned up\<close>

text \<open>
  Claim C3. Let the run have bound \<^verbatim>\<open>temp_dir\<close> to \<open>t\<close>, that is, \<^verbatim>\<open>mkdtemp\<close> has
  created the workspace \<open>t\<close>. Then, however the \<^verbatim>\<open>try\<close> part ended (success, a reported
  failure, or an exception turned into an outcome), the \<^verbatim>\<open>finally\<close> block attempts
  \<^verbatim>\<open>rmtree(t)\<close> whenever \<open>t\<close> still exists and logs the result; after the run either \<open>t\<close> does
  not exist, or the last record of the run is the warning that the removal failed. The
  outcome and the result of the run are those the \<^verbatim>\<open>try\<close> part had fixed.
\<close>

theorem workspace_removed_after_run:
  assumes "temp_dir (snd (run env w fs0)) = Some t"
  shows "temp_dir (snd (run_try env w (start fs0))) = Some t
     \<and> (if path_exists (fs (snd (run_try env w (start fs0)))) t
        then \<exists>m. trace (snd (run env w fs0))
                    = trace (snd (run_try env w (start fs0))) @ [FsOp (Rmtree t), m]
                 \<and> (m = LogInfo (''Cleaned up temporary directory: '' @ render t)
                    \<or> (\<exists>e. m = LogWarning (''Failed to cleanup temporary directory ''
                                            @ render t @ '': '' @ str_error e)))
        else snd (run env w fs0) = snd (run_try env w (start fs0)))
     \<and> (\<not> path_exists (fs (snd (run env w fs0))) t
        \<or> (\<exists>e. last (trace (snd (run env w fs0)))
                  = LogWarning (''Failed to cleanup temporary directory ''
                                @ render t @ '': '' @ str_error e)))
     \<and> outcomes (trace (snd (run env w fs0)))
         = outcomes (trace (snd (run_try env w (start fs0))))
     \<and> fst (run env w fs0) = fst (run_try env w (start fs0))"
proof -
  obtain r1 s1 where tried: "run_try env w (start fs0) = (r1, s1)" by force
  obtain r2 s2 where fin: "cleanup env s1 = (r2, s2)" by force
  have run: "run env w fs0 = (r1, s2)" using tried fin by (rule run_cases)
  note c = cleanup_cases [OF fin]
  from c run assms have t1: "temp_dir s1 = Some t" by simp
  show ?thesis
  proof (cases "path_exists (fs s1) t")
    case True
    with c t1 obtain m where m: "trace s2 = trace s1 @ [FsOp (Rmtree t), m]"
      and m_cases: "m = LogInfo (''Cleaned up temporary directory: '' @ render t)
                     \<and> \<not> path_exists (fs s2) t
                   \<or> (\<exists>e. m = LogWarning (''Failed to cleanup temporary directory '' @ render t
                                     @ '': '' @ str_error e))"
      by auto
    from m have "outcomes (trace s2) = outcomes (trace s1)"
      using m_cases by (auto simp: outcomes_append)
    with True t1 m m_cases run tried show ?thesis by auto
  next
    case False
    with c t1 have "s2 = s1" by simp
    with False t1 run tried show ?thesis by simp
  qed
qed

theorem workspace_removed_after_run_witness:
  "temp_dir (snd (run repository_env plugin_worker store_disk)) = Some workspace
   \<and> \<not> path_exists (fs (snd (run repository_env plugin_worker store_disk))) workspace
   \<and> temp_dir (snd (run stubborn_env plugin_worker store_disk)) = Some workspace
   \<and> path_exists (fs (snd (run stubborn_env plugin_worker store_disk))) workspace
   \<and> last (trace (snd (run stubborn_env plugin_worker store_disk)))
       = LogWarning ''Failed to cleanup temporary directory /tmp/koreader_store_k3j2x9qa: [Errno 13] Permission denied''
   \<and> outcomes (trace (snd (run stubborn_env plugin_worker store_disk)))
       = [(True, ''y installed successfully!'')]"
proof -
  have a: "temp_dir (snd (run repository_env plugin_worker store_disk)) = Some workspace"
    by code_simp
  have b: "temp_dir (snd (run stubborn_env plugin_worker store_disk)) = Some workspace"
    by code_simp
  have c: "path_exists (fs (snd (run stubborn_env plugin_worker store_disk))) workspace"
    by code_simp
  have d: "\<not> path_exists (fs (snd (run repository_env plugin_worker store_disk))) workspace"
    by code_simp
  have e: "last (trace (snd (run stubborn_env plugin_worker store_disk)))
       = LogWarning ''Failed to cleanup temporary directory /tmp/koreader_store_k3j2x9qa: [Errno 13] Permission denied''"
    by code_simp
  have f: "outcomes (trace (snd (run_try stubborn_env plugin_worker (start store_disk))))
       = [(True, ''y installed successfully!'')]"
    by code_simp
  from workspace_removed_after_run [OF a] workspace_removed_after_run [OF b] a b c d e f
  show ?thesis by simp
qed

section \<open>An unavailable source\<close>

text \<open>
  Claim C4. Let the package descriptor hold the owner's login and the repository name, so
  that the fetch is reached. If a plugin run's archive fetch returns \<^verbatim>\<open>None\<close> or empty
  bytes, the run returns normally with the single outcome
  \<^verbatim>\<open>(False, "Failed to download repository")\<close>; if a patch run's list fetch returns \<^verbatim>\<open>None\<close>
  or the empty list, it returns normally with the single outcome
  \<^verbatim>\<open>(False, "No patches found")\<close>. In both cases the trace holds no \<^verbatim>\<open>mkdtemp\<close>, the
  variable \<^verbatim>\<open>temp_dir\<close> stays unbound and the filesystem is the one the run started with.
\<close>

theorem source_unavailable:
  assumes "owner (item_data w) = Some d" and "d ''login'' = Some owner_login"
    and "name (item_data w) = Some repo"
  shows "(item_type w = ''plugin'' \<and> download_repository_zip env owner_login repo = Inr z
           \<and> (z = None \<or> z = Some [])
          \<longrightarrow> run env w fs0 =
                (Inr (), \<lparr>fs = fs0,
                           trace = [Progress (''Downloading '' @ repo @ ''...''),
                                    DownloadRepositoryZip owner_login repo,
                                    Finished False ''Failed to download repository''],
                           temp_dir = None\<rparr>))
       \<and> (item_type w = ''patch'' \<and> get_patch_files env owner_login repo = Inr ps
           \<and> (ps = None \<or> ps = Some [])
          \<longrightarrow> run env w fs0 =
                (Inr (), \<lparr>fs = fs0,
                           trace = [GetPatchFiles owner_login repo,
                                    Finished False ''No patches found''],
                           temp_dir = None\<rparr>))"
  using assms by (auto simp: run_defs io_defs)

theorem source_unavailable_witness:
  "run empty_env plugin_worker store_disk =
     (Inr (), \<lparr>fs = store_disk,
                trace = [Progress ''Downloading y...'', DownloadRepositoryZip ''x'' ''y'',
                         Finished False ''Failed to download repository''],
                temp_dir = None\<rparr>)
   \<and> run empty_env patch_worker store_disk =
     (Inr (), \<lparr>fs = store_disk,
                trace = [GetPatchFiles ''x'' ''y'', Finished False ''No patches found''],
                temp_dir = None\<rparr>)"
  using source_unavailable [of plugin_worker "[''login'' \<mapsto> ''x'']" "''x''" "''y''"
                               empty_env None store_disk "Some []"]
    source_unavailable [of patch_worker "[''login'' \<mapsto> ''x'']" "''x''" "''y''"
                           empty_env None store_disk "Some []"]
  by (simp add: plugin_worker_def patch_worker_def package_xy_def empty_env_def)

section \<open>An undocumented kind\<close>

text \<open>
  Claim C10, as amended. The two subscripts of lines 62 and 63 come before the test of
  the kind, inside the \<^verbatim>\<open>try\<close>. A run whose kind is neither \<open>plugin\<close> nor \<open>patch\<close> and
  whose package descriptor holds the owner's login and the repository name returns
  normally with an empty trace (no progress, no outcome, no log record), no workspace and
  an unchanged filesystem.
\<close>

theorem undocumented_kind_is_silent:
  assumes "item_type w \<noteq> ''plugin''" and "item_type w \<noteq> ''patch''"
    and "owner (item_data w) = Some d" and "d ''login'' = Some owner_login"
    and "name (item_data w) = Some repo"
  shows "run env w fs0 = (Inr (), \<lparr>fs = fs0, trace = [], temp_dir = None\<rparr>)"
  using assms by (simp add: run_defs io_defs)

theorem undocumented_kind_is_silent_witness:
  "run patch_env theme_worker store_disk
     = (Inr (), \<lparr>fs = store_disk, trace = [], temp_dir = None\<rparr>)"
  using undocumented_kind_is_silent [of theme_worker "[''login'' \<mapsto> ''x'']" "''x''" "''y''"
                                        patch_env store_disk]
  by (simp add: theme_worker_def package_xy_def)

text \<open>
  The claim as stated fails: with the kind \<open>theme\<close> and a descriptor without the key
  \<open>owner\<close>, line 62 raises \<^verbatim>\<open>KeyError('owner')\<close> and the handler emits an outcome.
\<close>

theorem undocumented_kind_without_owner_finishes:
  "run patch_env bare_theme_worker store_disk =
     (Inr (), \<lparr>fs = store_disk,
                trace = [LogError (''Error during installation: '' @ [CHR 0x27] @ ''owner'' @ [CHR 0x27]),
                         Finished False (''Error: '' @ [CHR 0x27] @ ''owner'' @ [CHR 0x27])],
                temp_dir = None\<rparr>)"
  by code_simp

section \<open>The locator and directories named like marker files\<close>

text \<open>
  Claim C1, at an input where the code departs from it. The first test of
  \<^verbatim>\<open>find_plugin_root\<close> asks \<^verbatim>\<open>Path.exists()\<close>, which holds for a directory as well as for
  a file, while the search below it asks for names among the \<open>files\<close> of \<^verbatim>\<open>os.walk\<close>.
  In a workspace whose only entries are two directories named \<open>main.lua\<close> and
  \<open>_meta.lua\<close>, no directory of the tree contains a file at all, yet the locator returns
  the workspace.
\<close>

theorem find_plugin_root_accepts_marker_directories:
  "find_plugin_root marker_directories_disk [''ws''] = Some [''ws'']
   \<and> os_walk marker_directories_disk [''ws'']
       = [([''ws''], [''main.lua'', ''_meta.lua''], []),
          ([''ws'', ''main.lua''], [], []),
          ([''ws'', ''_meta.lua''], [], [])]"
  by code_simp

section \<open>Installing a release-style archive twice\<close>

text \<open>
  Claim C5, at an input where the code departs from it. For an archive whose marker
  files sit at its root the locator returns the workspace itself, so the plugin is named
  after the workspace, a name \<^verbatim>\<open>mkdtemp\<close> draws afresh for every run. Two successful
  installs of the same package in a row, with workspaces \<open>koreader_store_aaaaaaaa\<close> and
  \<open>koreader_store_bbbbbbbb\<close>, leave two install targets side by side: the first is not
  replaced.
\<close>

theorem release_archive_installed_twice:
  "outcomes (trace (snd (run (release_env ''aaaaaaaa'') plugin_worker store_disk)))
     = [(True, ''y installed successfully!'')] \<and>
   outcomes (trace (snd (run (release_env ''bbbbbbbb'') plugin_worker
       (fs (snd (run (release_env ''aaaaaaaa'') plugin_worker store_disk))))))
     = [(True, ''y installed successfully!'')] \<and>
   lookup (fs (snd (run (release_env ''bbbbbbbb'') plugin_worker
       (fs (snd (run (release_env ''aaaaaaaa'') plugin_worker store_disk))))))
     [''opt'', ''koreader'', ''plugins''] =
     Some (Dir [(''koreader_store_aaaaaaaa.koplugin'',
                 Dir [(''y.zip'', File ''PK''), (''main.lua'', File ''return {}''),
                      (''_meta.lua'', File ''return 1'')]),
                (''koreader_store_bbbbbbbb.koplugin'',
                 Dir [(''y.zip'', File ''PK''), (''main.lua'', File ''return {}''),
                      (''_meta.lua'', File ''return 1'')])])"
  by code_simp

section \<open>What a statement may touch\<close>

lemma same_outside_refl: "same_outside t r r"
  by (simp add: same_outside_def)

lemma same_outside_trans: "same_outside t r r' \<Longrightarrow> same_outside t r' r'' \<Longrightarrow> same_outside t r r''"
  by (simp add: same_outside_def)





lemma confined_gated: "confined t m \<Longrightarrow> gated t m"
  unfolding confined_def gated_def by blast






lemma confined_return: "confined t (io_return x)"
  by (simp add: confined_def io_return_def same_outside_refl)

lemma confined_raise: "confined t (io_raise e)"
  by (simp add: confined_def io_raise_def same_outside_refl)

lemma confined_subscript: "confined t (subscript d k)"
  by (simp add: subscript_def confined_return confined_raise split: option.splits)

lemma confined_api_call: "early a \<Longrightarrow> confined t (api_call a r)"
  by (simp add: confined_def api_call_def same_outside_refl)









lemma harmless_subscript: "harmless (subscript d k)"
  by (simp add: harmless_def subscript_def io_return_def io_raise_def split: option.splits)




lemma kept_outside_then_confined:
  assumes "kept_outside s s1" and "temp_dir s1 = Some t" and "confined t m" and "m s1 = (r, s')"
  shows "kept_outside s s'"
proof -
  from assms(1) obtain as where 1: "trace s1 = trace s @ as"
    and 2: "Progress ''Installing...'' \<in> set as \<and> (\<exists>t' d. FindPluginRoot t' (Some d) \<in> set as)
         \<or> (\<forall>a\<in>set as. early a) \<and>
           (case temp_dir s1 of None \<Rightarrow> fs s1 = fs s | Some t \<Rightarrow> same_outside t (fs s) (fs s1))"
    unfolding kept_outside_def by blast
  from assms(3,4) obtain bs where 3: "temp_dir s' = temp_dir s1" "same_outside t (fs s1) (fs s')"
    "trace s' = trace s1 @ bs" "\<forall>a\<in>set bs. early a"
    unfolding confined_def by blast
  have tr: "trace s' = trace s @ (as @ bs)" using 1 3 by simp
  from 2 assms(2) 3 have "Progress ''Installing...'' \<in> set (as @ bs)
                 \<and> (\<exists>t' d. FindPluginRoot t' (Some d) \<in> set (as @ bs))
         \<or> (\<forall>a\<in>set (as @ bs). early a) \<and>
           (case temp_dir s' of None \<Rightarrow> fs s' = fs s | Some t \<Rightarrow> same_outside t (fs s) (fs s'))"
    using same_outside_trans by (auto split: option.splits)
  with tr show ?thesis unfolding kept_outside_def by blast
qed



















section \<open>A failed plugin run leaves the install target alone\<close>



section \<open>The order of the phases, statement by statement\<close>























section \<open>The order of the phases\<close>




section \<open>Writing the patch files\<close>


lemma set_at_parent:
  "lookup r pd = Some (Dir es) \<Longrightarrow> \<exists>es'. lookup (set_at (pd @ [n]) (Some c) r) pd = Some (Dir es')"
proof (induction pd arbitrary: r)
  case Nil
  then show ?case by simp
next
  case (Cons a pd)
  then obtain es0 c0 where r: "r = Dir es0" and a: "map_of es0 a = Some c0"
    and sub: "lookup c0 pd = Some (Dir es)"
    by (cases r) (auto split: option.splits)
  from Cons.IH [OF sub] obtain es' where "lookup (set_at (pd @ [n]) (Some c) c0) pd = Some (Dir es')"
    by blast
  moreover have "set_at ((a # pd) @ [n]) (Some c) r
                 = Dir (AList.update a (set_at (pd @ [n]) (Some c) c0) es0)"
    using r a by (cases "pd @ [n]") auto
  ultimately show ?case by (simp add: AList.update_conv')
qed




section \<open>Installing patches\<close>




section \<open>The commit step\<close>

lemma os_mkdir_result:
  assumes "os_mkdir p r = Inr r'"
  shows "p \<noteq> [] \<and> (\<exists>es. lookup r' (butlast p) = Some (Dir es)) \<and> lookup r' p = Some (Dir [])"
proof -
  from assms obtain es where p: "p \<noteq> []" and parent: "lookup r (butlast p) = Some (Dir es)"
    and r': "r' = set_at p (Some (Dir [])) r"
    by (auto simp: os_mkdir_def split: if_splits option.splits node.splits)
  from p have split: "p = butlast p @ [last p]" by simp
  from set_at_parent [OF parent, of "last p" "Dir []"] split r'
  have "\<exists>es'. lookup r' (butlast p) = Some (Dir es')" by simp
  moreover from p parent r' have "lookup r' p = Some (Dir [])"
    by (simp add: set_at_Some_there)
  ultimately show ?thesis using p by blast
qed

lemma makedirs_result:
  assumes "makedirs p r = Inr r'"
  shows "p \<noteq> [] \<and> (\<exists>es. lookup r' (butlast p) = Some (Dir es))"
proof -
  from assms obtain r0 where "os_mkdir p r0 = Inr r'"
    by (subst (asm) makedirs.simps) (auto split: if_splits sum.splits)
  with os_mkdir_result show ?thesis by blast
qed

lemma copytree_result:
  assumes "copytree src dst r = Inr r'"
  shows "\<exists>es. lookup r src = Some (Dir es) \<and> lookup r' dst = Some (Dir es)"
proof -
  from assms obtain es r1 where src: "lookup r src = Some (Dir es)"
    and made: "makedirs dst r = Inr r1" and r': "r' = set_at dst (Some (Dir es)) r1"
    by (auto simp: copytree_def split: option.splits node.splits sum.splits)
  from makedirs_result [OF made] r' have "lookup r' dst = Some (Dir es)"
    by (auto simp: set_at_Some_there)
  with src show ?thesis by blast
qed

text \<open>
  Lines 102 to 105 replace: when the install step returns, the install target is the
  located directory, entry for entry, whatever was at the target before; provided the
  two paths do not contain one another.
\<close>

lemma install_plugin_replaces:
  assumes "install_plugin env w repo d s = (Inr u, s')"
    and "outside (install_path w @ [''plugins'', install_name (path_name d)]) d"
  shows "\<exists>es. lookup (fs s) d = Some (Dir es)
           \<and> lookup (fs s') (install_path w @ [''plugins'', install_name (path_name d)])
               = Some (Dir es)"
proof -
  let ?target = "install_path w @ [''plugins'', install_name (path_name d)]"
  from assms(1) have "io_bind (act (Progress ''Installing...'')) (\<lambda>_.
         io_bind (\<lambda>s. if path_exists (fs s) ?target
                      then fs_op env (Rmtree ?target) ?target (rmtree ?target) s
                      else io_return () s) (\<lambda>_.
         io_bind (fs_op env (Copytree d ?target) ?target (copytree d ?target)) (\<lambda>_.
         act (Finished True
                (if is_update w then repo @ '' updated successfully!''
                 else repo @ '' installed successfully!''))))) s = (Inr u, s')"
    by (simp add: install_plugin_def Let_def)
  then show ?thesis
  proof (cases rule: io_bind_cases)
    case (raised e)
    then show ?thesis by simp
  next
    case announced: (returned u1 s1)
    then have s1: "fs s1 = fs s" by (auto simp: act_def)
    from announced(2) show ?thesis
    proof (cases rule: io_bind_cases)
      case (raised e)
      then show ?thesis by simp
    next
      case removed: (returned u2 s2)
      have kept: "lookup (fs s2) d = lookup (fs s) d"
      proof (cases "path_exists (fs s1) ?target")
        case False
        with removed(1) s1 show ?thesis by (simp add: io_return_def)
      next
        case True
        with removed(1) obtain r2 where "rmtree ?target (fs s1) = Inr r2" and "fs s2 = r2"
          by (auto simp: fs_op_def Let_def split: option.splits sum.splits)
        then have "fs s2 = set_at ?target None (fs s1)"
          by (auto simp: rmtree_def split: option.splits node.splits if_splits)
        with assms(2) s1 show ?thesis
          by (simp add: outside_def set_at_frame)
      qed
      from removed(2) show ?thesis
      proof (cases rule: io_bind_cases)
        case (raised e)
        then show ?thesis by simp
      next
        case copied: (returned u3 s3)
        then have "fs s' = fs s3" by (auto simp: act_def)
        moreover from copied(1) obtain r3 where "copytree d ?target (fs s2) = Inr r3" and "fs s3 = r3"
          by (auto simp: fs_op_def Let_def split: option.splits sum.splits)
        ultimately show ?thesis
          using copytree_result [of d ?target "fs s2" r3] kept by auto
      qed
    qed
  qed
qed

end
